theory Spec2Isabelle
  imports Main "HOL-Library.Word" "HOL-Library.Sublist"
begin

section \<open>Data model (types.ts)\<close>

text \<open>
  The enumeration \<open>AppState\<close> of types.ts, member for member.
\<close>

datatype AppState = IDLE | RECORDING | REVIEW | PROCESSING | COMPLETED | ERROR

type_synonym byte = "8 word"

text \<open>
  A \<open>Blob\<close> is its bytes and its mime type. \<open>new Blob(parts, {type})\<close> concatenates
  the parts in order.
\<close>

record Blob =
  blob_bytes :: "byte list"
  blob_type :: string

definition new_Blob :: "byte list list \<Rightarrow> string \<Rightarrow> Blob" where
  "new_Blob parts ty = \<lparr>blob_bytes = concat parts, blob_type = ty\<rparr>"

text \<open>
  The interface \<open>NoteSession\<close>. Its fields \<open>id\<close> and \<open>duration\<close> are written
  \<open>session_id\<close> and \<open>session_duration\<close> here, since \<open>id\<close> is a constant of HOL and
  \<open>duration\<close> is also the name of the component's counter. An object URL is the number the
  browser handed out for it.
\<close>

record NoteSession =
  session_id :: string
  timestamp :: nat
  audioBlob :: "Blob option"
  audioUrl :: "nat option"
  session_duration :: nat
  "notes" :: "string option"
  topic :: "string option"

section \<open>The component App (App.tsx)\<close>

text \<open>
  A \<open>MediaRecorder\<close> as this program uses it: the stream it records, its state, and the
  value of \<open>duration\<close> that its \<open>onstop\<close> closure holds. That closure is created inside one
  call of \<open>startRecording\<close>, so \<open>duration\<close> in it is the constant of the render whose
  \<open>startRecording\<close> was called; \<open>audioStream\<close> in it is the stream of that call.
  \<open>Stopping\<close> is the recorder after \<open>stop()\<close>, while its \<open>dataavailable\<close> and \<open>stop\<close>
  events are still queued.
\<close>

datatype recorder_state = Inactive | Recording | Stopping

record MediaRecorder =
  rec_stream :: nat
  rec_duration :: nat
  rec_state :: recorder_state

text \<open>
  The calls to the browser that create or release a resource. The program never calls
  \<open>URL.revokeObjectURL\<close>; the constructor is there so that such calls can be counted.
\<close>

datatype call =
    GetUserMedia nat
  | TrackStop nat
  | SetInterval nat
  | ClearInterval nat
  | CreateObjectURL nat
  | RevokeObjectURL nat

text \<open>
  The state of the component: the five \<open>useState\<close> cells, the three refs, and what the
  browser holds for it: the running interval timers, the next fresh identifier for a timer
  or an object URL, the resource calls made so far, the calls of \<open>startRecording\<close> whose
  \<open>getUserMedia\<close> promise has not settled (each with the value of \<open>duration\<close> in the render
  whose \<open>startRecording\<close> it is), and the audio of the \<open>generateNotesFromAudio\<close> calls whose
  promise has not settled.
\<close>

record App =
  appState :: AppState
  session :: "NoteSession option"
  stream :: "nat option"
  duration :: nat
  error :: "string option"
  mediaRecorderRef :: "MediaRecorder option"
  chunksRef :: "byte list list"
  timerRef :: "nat option"
  intervals :: "nat list"
  nextId :: nat
  calls :: "call list"
  pendingStarts :: "nat list"
  inFlight :: "Blob list"

definition App_init :: App where
  "App_init = \<lparr>appState = IDLE, session = None, stream = None, duration = 0, error = None,
     mediaRecorderRef = None, chunksRef = [], timerRef = None,
     intervals = [], nextId = 1, calls = [], pendingStarts = [], inFlight = []\<rparr>"

subsection \<open>startRecording\<close>

text \<open>
  What the awaited part of \<open>startRecording\<close> can do: \<open>getUserMedia\<close> rejects (permission
  denied, no device); it resolves with a stream and the \<open>MediaRecorder\<close> constructor
  throws; the recorder's \<open>start()\<close> throws; or everything succeeds.
\<close>

datatype start_outcome =
    GetUserMediaRejects
  | RecorderCtorThrows nat
  | RecorderStartThrows nat
  | Started nat

definition mic_error :: string where
  "mic_error = ''Microphone access denied or not available.''"

text \<open>
  The part of \<open>startRecording\<close> before the \<open>await\<close>: it clears the error and calls
  \<open>getUserMedia\<close>. The call stays pending, with the \<open>duration\<close> of this render, until its
  promise settles.
\<close>

definition startRecording :: "App \<Rightarrow> App" where
  "startRecording s = s\<lparr>error := None, pendingStarts := pendingStarts s @ [duration s]\<rparr>"

text \<open>
  The part after the \<open>await\<close>, with its \<open>catch\<close>. \<open>d\<close> is the value of \<open>duration\<close> in
  the render whose \<open>startRecording\<close> is running: the \<open>onstop\<close> closure keeps it.
  \<open>window.setInterval\<close> returns a fresh positive handle. Nothing here reads the state the
  component is in when the promise settles.
\<close>

definition startRecording_settled :: "start_outcome \<Rightarrow> nat \<Rightarrow> App \<Rightarrow> App" where
  "startRecording_settled out d s =
     (case out of
        GetUserMediaRejects \<Rightarrow> s\<lparr>error := Some mic_error\<rparr>
      | RecorderCtorThrows audioStream \<Rightarrow>
          s\<lparr>stream := Some audioStream,
            calls := calls s @ [GetUserMedia audioStream],
            error := Some mic_error\<rparr>
      | RecorderStartThrows audioStream \<Rightarrow>
          s\<lparr>stream := Some audioStream,
            mediaRecorderRef :=
              Some \<lparr>rec_stream = audioStream, rec_duration = d, rec_state = Inactive\<rparr>,
            chunksRef := [],
            calls := calls s @ [GetUserMedia audioStream],
            error := Some mic_error\<rparr>
      | Started audioStream \<Rightarrow>
          s\<lparr>stream := Some audioStream,
            mediaRecorderRef :=
              Some \<lparr>rec_stream = audioStream, rec_duration = d, rec_state = Recording\<rparr>,
            chunksRef := [],
            appState := RECORDING,
            duration := 0,
            timerRef := Some (nextId s),
            intervals := intervals s @ [nextId s],
            nextId := Suc (nextId s),
            calls := calls s @ [GetUserMedia audioStream, SetInterval (nextId s)]\<rparr>)"

text \<open>The interval callback: \<open>setDuration(prev => prev + 1)\<close>.\<close>

definition tick :: "App \<Rightarrow> App" where
  "tick s = s\<lparr>duration := duration s + 1\<rparr>"

subsection \<open>stopRecording and the recorder's callbacks\<close>

definition clearInterval :: "nat \<Rightarrow> App \<Rightarrow> App" where
  "clearInterval h s =
     s\<lparr>intervals := removeAll h (intervals s), calls := calls s @ [ClearInterval h]\<rparr>"

text \<open>
  \<open>MediaRecorder.stop()\<close>: on a recorder that is recording it queues the \<open>dataavailable\<close>
  and \<open>stop\<close> events; on any other recorder it does nothing.
\<close>

definition recorder_stop :: "MediaRecorder \<Rightarrow> MediaRecorder" where
  "recorder_stop r = (if rec_state r = Recording then r\<lparr>rec_state := Stopping\<rparr> else r)"

definition stopRecording :: "App \<Rightarrow> App" where
  "stopRecording s =
     (case mediaRecorderRef s of
        None \<Rightarrow> s
      | Some r \<Rightarrow>
          if appState s = RECORDING then
            (let s1 = s\<lparr>mediaRecorderRef := Some (recorder_stop r)\<rparr>;
                 s2 = (case timerRef s1 of
                         None \<Rightarrow> s1
                       | Some h \<Rightarrow> if h \<noteq> 0 then clearInterval h s1 else s1)
             in s2\<lparr>appState := REVIEW\<rparr>)
          else s)"

text \<open>\<open>ondataavailable\<close>: a chunk is kept when it is not empty.\<close>

definition ondataavailable :: "byte list \<Rightarrow> App \<Rightarrow> App" where
  "ondataavailable d s = (if length d > 0 then s\<lparr>chunksRef := chunksRef s @ [d]\<rparr> else s)"

text \<open>
  \<open>onstop\<close> of the recorder \<open>r\<close>; \<open>uuid\<close> and \<open>now\<close> are what \<open>crypto.randomUUID()\<close> and
  \<open>Date.now()\<close> return. \<open>URL.createObjectURL\<close> returns a fresh URL. The session's duration
  is the \<open>duration\<close> of the closure.
\<close>

definition onstop :: "MediaRecorder \<Rightarrow> string \<Rightarrow> nat \<Rightarrow> App \<Rightarrow> App" where
  "onstop r uuid now s =
     (let blob = new_Blob (chunksRef s) ''audio/webm'';
          url = nextId s
      in s\<lparr>session := Some \<lparr>session_id = uuid, timestamp = now, audioBlob = Some blob,
                               audioUrl = Some url, session_duration = rec_duration r,
                               notes = None, topic = None\<rparr>,
           stream := None,
           mediaRecorderRef := Some (r\<lparr>rec_state := Inactive\<rparr>),
           nextId := Suc url,
           calls := calls s @ [CreateObjectURL url, TrackStop (rec_stream r)]\<rparr>)"

text \<open>
  The two queued events of a stopped recorder, delivered in their order. They exist only
  after \<open>stop()\<close> on a recording recorder.
\<close>

definition recorder_events :: "byte list \<Rightarrow> string \<Rightarrow> nat \<Rightarrow> App \<Rightarrow> App" where
  "recorder_events d uuid now s =
     (case mediaRecorderRef s of
        None \<Rightarrow> s
      | Some r \<Rightarrow>
          if rec_state r = Stopping then onstop r uuid now (ondataavailable d s) else s)"

subsection \<open>generateNotes and reset\<close>

text \<open>
  What the call of \<open>generateNotesFromAudio\<close> can do: throw (the file reader, the client or
  the request fails), or return the response, whose \<open>text\<close> may be undefined.
\<close>

datatype gen_outcome = Throws | Responds "string option"

definition generateNotesFromAudio_result :: "gen_outcome \<Rightarrow> unit + string" where
  "generateNotesFromAudio_result out =
     (case out of
        Throws \<Rightarrow> Inl ()
      | Responds None \<Rightarrow> Inr ''No notes could be generated.''
      | Responds (Some t) \<Rightarrow> Inr (if t = [] then ''No notes could be generated.'' else t))"

definition gen_error :: string where
  "gen_error = ''Failed to generate notes. Please try again.''"

text \<open>The part of \<open>generateNotes\<close> up to the \<open>await\<close>: the guard, the state, the call.\<close>

definition generateNotes :: "App \<Rightarrow> App" where
  "generateNotes s =
     (case session s of
        None \<Rightarrow> s
      | Some sess \<Rightarrow>
          (case audioBlob sess of
             None \<Rightarrow> s
           | Some blob \<Rightarrow> s\<lparr>appState := PROCESSING, inFlight := inFlight s @ [blob]\<rparr>))"

text \<open>
  The part after the \<open>await\<close>. \<open>setSession(prev => prev ? {...prev, notes} : null)\<close> reads
  the session of the moment the promise settles.
\<close>

definition generateNotes_settled :: "gen_outcome \<Rightarrow> App \<Rightarrow> App" where
  "generateNotes_settled out s =
     (case generateNotesFromAudio_result out of
        Inr n \<Rightarrow>
          s\<lparr>session := map_option (\<lambda>prev. prev\<lparr>notes := Some n\<rparr>) (session s),
            appState := COMPLETED\<rparr>
      | Inl _ \<Rightarrow> s\<lparr>error := Some gen_error, appState := REVIEW\<rparr>)"

definition reset :: "App \<Rightarrow> App" where
  "reset s = s\<lparr>appState := IDLE, session := None, duration := 0, error := None\<rparr>"

subsection \<open>Events\<close>

text \<open>
  What can happen to the component: a click on one of its controls, the interval timer,
  and a promise settling. A start is two events, the click on the record button and the
  settlement of its \<open>getUserMedia\<close> promise (\<open>StartSettled k out\<close> settles the pending
  call number \<open>k\<close>, so pending calls settle in any order); other events can fall between
  the two. A note generation is two events as well (its continuation is the same for every
  pending call, and \<open>GenerateSettled\<close> settles the oldest). \<open>StopCapture\<close> is the click on
  the stop button together with the two events that the recorder queues at \<open>stop()\<close>.
\<close>

datatype event =
    StartClick
  | StartSettled nat start_outcome
  | Tick
  | StopCapture "byte list" string nat
  | GenerateNotes
  | GenerateSettled gen_outcome
  | Reset

text \<open>The handler or callback of an event, as the code runs it once it is called.\<close>

fun handle :: "event \<Rightarrow> App \<Rightarrow> App" where
  "handle StartClick s = startRecording s"
| "handle (StartSettled k out) s =
     (if k < length (pendingStarts s)
      then startRecording_settled out (pendingStarts s ! k)
             (s\<lparr>pendingStarts := take k (pendingStarts s) @ drop (Suc k) (pendingStarts s)\<rparr>)
      else s)"
| "handle Tick s = tick s"
| "handle (StopCapture d uuid now) s = recorder_events d uuid now (stopRecording s)"
| "handle GenerateNotes s = generateNotes s"
| "handle (GenerateSettled out) s =
     (case inFlight s of
        [] \<Rightarrow> s
      | blob # rest \<Rightarrow> generateNotes_settled out (s\<lparr>inFlight := rest\<rparr>))"
| "handle Reset s = reset s"

text \<open>
  Which events the rendered page can deliver. The record button is rendered when the state
  is \<open>IDLE\<close> (also while a \<open>getUserMedia\<close> call is pending), the stop button when it is
  \<open>RECORDING\<close>. The review panel is rendered when the state is \<open>REVIEW\<close> or \<open>PROCESSING\<close> and
  a session exists, and both of its buttons (Discard, Generate Notes) are disabled when the
  state is \<open>PROCESSING\<close>. The completed view, with its New Recording and Delete buttons, is
  rendered when the state is \<open>COMPLETED\<close> and a session exists. The timer calls back while an
  interval is running, and a promise settles while its call is pending.
\<close>

fun enabled :: "App \<Rightarrow> event \<Rightarrow> bool" where
  "enabled s StartClick = (appState s = IDLE)"
| "enabled s (StartSettled k out) = (k < length (pendingStarts s))"
| "enabled s Tick = (intervals s \<noteq> [])"
| "enabled s (StopCapture d uuid now) = (appState s = RECORDING)"
| "enabled s GenerateNotes =
     ((appState s = REVIEW \<or> appState s = PROCESSING) \<and> session s \<noteq> None
      \<and> \<not> appState s = PROCESSING)"
| "enabled s (GenerateSettled out) = (inFlight s \<noteq> [])"
| "enabled s Reset =
     (((appState s = REVIEW \<or> appState s = PROCESSING) \<and> session s \<noteq> None
       \<and> \<not> appState s = PROCESSING)
      \<or> (appState s = COMPLETED \<and> session s \<noteq> None))"

definition step :: "App \<Rightarrow> event \<Rightarrow> App" where
  "step s e = (if enabled s e then handle e s else s)"

definition run :: "event list \<Rightarrow> App \<Rightarrow> App" where
  "run es s = foldl step s es"

section \<open>The component Visualizer (components/Visualizer.tsx)\<close>

text \<open>
  The calls of the component to the Web Audio API and to the animation clock. The
  component never calls \<open>AudioContext.close\<close>; the constructor is there so that its absence
  can be stated.
\<close>

datatype audio_call =
    NewAudioContext
  | ContextResume
  | ContextClose
  | CreateAnalyser nat
  | CreateMediaStreamSource nat nat
  | Connect nat nat
  | Disconnect nat
  | RequestAnimationFrame nat
  | CancelAnimationFrame nat

text \<open>
  The instance of the component and the browser around it: the five refs of the instance
  (\<open>canvasRef\<close> is \<open>None\<close> for no canvas element and \<open>Some ok\<close> for a canvas whose
  \<open>getContext('2d')\<close> is non-null exactly when \<open>ok\<close>), what React holds for its effect (the
  dependencies of the last run, whether that run returned its cleanup function, whether
  the instance is mounted) and what the browser holds (the connections of the audio graph,
  the requested frame, the next fresh node or frame number, the calls so far). The
  painting of the bars on the canvas is left out.
\<close>

record Visualizer =
  canvasRef :: "bool option"
  animationRef :: "nat option"
  analyserRef :: "nat option"
  audioContextRef :: "nat option"
  sourceRef :: "nat option"
  deps :: "(nat option \<times> bool) option"
  cleanup :: bool
  mounted :: bool
  connections :: "(nat \<times> nat) list"
  pendingFrame :: "nat option"
  nextNode :: nat
  audio_calls :: "audio_call list"

text \<open>Before the first mount: no instance, and a browser that has done nothing yet.\<close>

definition Visualizer_init :: "bool option \<Rightarrow> Visualizer" where
  "Visualizer_init cv = \<lparr>canvasRef = cv, animationRef = None, analyserRef = None,
     audioContextRef = None, sourceRef = None, deps = None, cleanup = False, mounted = False,
     connections = [], pendingFrame = None, nextNode = 1, audio_calls = []\<rparr>"

text \<open>
  Mounting makes a new instance: every \<open>useRef()\<close> of it starts empty and its effect has
  not run. What the browser holds is not touched.
\<close>

definition mount :: "Visualizer \<Rightarrow> Visualizer" where
  "mount v = v\<lparr>animationRef := None, analyserRef := None, audioContextRef := None,
     sourceRef := None, deps := None, cleanup := False, mounted := True\<rparr>"

text \<open>
  \<open>draw\<close>, in an effect whose \<open>isRecording\<close> is the given one: it asks for the next frame.
\<close>

definition draw :: "bool \<Rightarrow> Visualizer \<Rightarrow> Visualizer" where
  "draw isRecording v =
     (if \<not> isRecording then v
      else v\<lparr>animationRef := Some (nextNode v), pendingFrame := Some (nextNode v),
             nextNode := Suc (nextNode v),
             audio_calls := audio_calls v @ [RequestAnimationFrame (nextNode v)]\<rparr>)"

text \<open>
  The body of the effect, up to the cleanup function it returns. \<open>suspended\<close> says whether
  the context's state is \<open>'suspended'\<close> when the effect reads it. The result's \<open>cleanup\<close>
  says whether the body returned the cleanup function (both early returns return nothing).
\<close>

definition effect_setup :: "nat option \<Rightarrow> bool \<Rightarrow> bool \<Rightarrow> Visualizer \<Rightarrow> Visualizer" where
  "effect_setup strm isRecording suspended v =
     (case strm of
        None \<Rightarrow> v\<lparr>cleanup := False\<rparr>
      | Some st \<Rightarrow>
          if \<not> isRecording \<or> canvasRef v = None then v\<lparr>cleanup := False\<rparr>
          else
            (let v1 = (case audioContextRef v of
                         None \<Rightarrow> v\<lparr>audioContextRef := Some (nextNode v),
                                    nextNode := Suc (nextNode v),
                                    audio_calls := audio_calls v @ [NewAudioContext]\<rparr>
                       | Some ctx \<Rightarrow> v);
                 v2 = (if suspended
                       then v1\<lparr>audio_calls := audio_calls v1 @ [ContextResume]\<rparr> else v1);
                 an = nextNode v2;
                 src = Suc (nextNode v2);
                 v3 = v2\<lparr>analyserRef := Some an, sourceRef := Some src,
                         nextNode := Suc (Suc (nextNode v2)),
                         connections := connections v2 @ [(src, an)],
                         audio_calls := audio_calls v2 @
                           [CreateAnalyser an, CreateMediaStreamSource src st, Connect src an]\<rparr>
             in if canvasRef v = Some False then v3\<lparr>cleanup := False\<rparr>
                else (draw isRecording v3)\<lparr>cleanup := True\<rparr>))"

definition cancelAnimationFrame :: "nat \<Rightarrow> Visualizer \<Rightarrow> Visualizer" where
  "cancelAnimationFrame a v =
     v\<lparr>pendingFrame := (if pendingFrame v = Some a then None else pendingFrame v),
       audio_calls := audio_calls v @ [CancelAnimationFrame a]\<rparr>"

text \<open>
  The cleanup function. \<open>disconnect()\<close> on the source removes every connection that leaves
  it. The analyser's \<open>disconnect()\<close> is commented out in the source.
\<close>

definition effect_cleanup :: "Visualizer \<Rightarrow> Visualizer" where
  "effect_cleanup v =
     (let v1 = (case animationRef v of
                  None \<Rightarrow> v
                | Some a \<Rightarrow> if a \<noteq> 0 then cancelAnimationFrame a v else v)
      in case sourceRef v1 of
           None \<Rightarrow> v1
         | Some src \<Rightarrow>
             v1\<lparr>connections := filter (\<lambda>(a, b). a \<noteq> src) (connections v1),
                audio_calls := audio_calls v1 @ [Disconnect src]\<rparr>)"

text \<open>
  What React and the browser do with the instance: a render with the props \<open>stream\<close> and
  \<open>isRecording\<close> (an effect whose dependencies changed runs the cleanup function of its last
  run, if that returned one, and then its body), an animation frame, and the unmount (which
  runs the cleanup function).
\<close>

datatype vis_event = Render "nat option" bool bool | Frame | Unmount

fun vis_step :: "Visualizer \<Rightarrow> vis_event \<Rightarrow> Visualizer" where
  "vis_step v (Render strm isRecording suspended) =
     (if \<not> mounted v \<or> deps v = Some (strm, isRecording) then v
      else (effect_setup strm isRecording suspended
              (if cleanup v then effect_cleanup v else v))\<lparr>deps := Some (strm, isRecording)\<rparr>)"
| "vis_step v Frame =
     (if pendingFrame v = None then v else draw True (v\<lparr>pendingFrame := None\<rparr>))"
| "vis_step v Unmount =
     (if \<not> mounted v then v
      else (if cleanup v then effect_cleanup v else v)\<lparr>cleanup := False, mounted := False\<rparr>)"

subsection \<open>The Visualizer on the page\<close>

text \<open>
  \<open>App\<close> renders \<open><Visualizer stream={stream} isRecording={true} />\<close> exactly when the
  state is \<open>RECORDING\<close>. So after the component has handled an event, React mounts a new
  instance if the state has become \<open>RECORDING\<close>, renders the mounted one with the current
  stream while the state stays \<open>RECORDING\<close>, and unmounts it when the state is another one.
\<close>

record Page =
  page_app :: App
  page_vis :: Visualizer

definition Page_init :: "bool option \<Rightarrow> Page" where
  "Page_init cv = \<lparr>page_app = App_init, page_vis = Visualizer_init cv\<rparr>"

definition render_Visualizer :: "bool \<Rightarrow> App \<Rightarrow> Visualizer \<Rightarrow> Visualizer" where
  "render_Visualizer suspended s v =
     (if appState s = RECORDING
      then vis_step (if mounted v then v else mount v) (Render (stream s) True suspended)
      else vis_step v Unmount)"

text \<open>
  An event of the component (with whether the audio context is suspended when an effect
  reads its state), or an animation frame.
\<close>

datatype page_event = AppEvent event bool | AnimationFrame

fun page_step :: "Page \<Rightarrow> page_event \<Rightarrow> Page" where
  "page_step p (AppEvent e suspended) =
     \<lparr>page_app = step (page_app p) e,
      page_vis = render_Visualizer suspended (step (page_app p) e) (page_vis p)\<rparr>"
| "page_step p AnimationFrame = p\<lparr>page_vis := vis_step (page_vis p) Frame\<rparr>"

definition page_run :: "page_event list \<Rightarrow> Page \<Rightarrow> Page" where
  "page_run es p = foldl page_step p es"

section \<open>The note text formatter (renderMarkdown in App.tsx)\<close>

text \<open>
  The display blocks: \<open>h1\<close>, \<open>h2\<close>, \<open>h3\<close> with their text; \<open>li\<close> with its text, and whether
  it carries the class \<open>list-decimal\<close>; the bold \<open>p\<close>; the spacer \<open>div\<close>; the plain \<open>p\<close>.
  The React key of a block, which is its index, is left out.
\<close>

datatype block =
    Heading nat string
  | ListItem bool string
  | BoldParagraph string
  | Spacer
  | Paragraph string

text \<open>
  The string functions of JavaScript that the formatter uses, on strings of 8-bit
  characters. \<open>js_split\<close> is \<open>split\<close> on a one-character separator; its result is never
  empty, so the first case of the \<open>case\<close> below is never taken.
\<close>

fun js_split :: "char \<Rightarrow> string \<Rightarrow> string list" where
  "js_split sep [] = [[]]"
| "js_split sep (c # cs) =
     (if c = sep then [] # js_split sep cs
      else (case js_split sep cs of
              [] \<Rightarrow> [[c]]
            | seg # segs \<Rightarrow> (c # seg) # segs))"

text \<open>\<open>replace\<close> with a string pattern: the first occurrence is replaced.\<close>

fun js_replace :: "string \<Rightarrow> string \<Rightarrow> string \<Rightarrow> string" where
  "js_replace pat rep [] = (if pat = [] then rep else [])"
| "js_replace pat rep (c # cs) =
     (if prefix pat (c # cs) then rep @ drop (length pat) (c # cs)
      else c # js_replace pat rep cs)"

text \<open>\<open>replace\<close> with the global pattern of two stars: every occurrence, from the left, is removed.\<close>

fun replace_all_stars :: "string \<Rightarrow> string" where
  "replace_all_stars (c # d # cs) =
     (if c = CHR ''*'' \<and> d = CHR ''*'' then replace_all_stars cs
      else c # replace_all_stars (d # cs))"
| "replace_all_stars cs = cs"

definition is_digit :: "char \<Rightarrow> bool" where
  "is_digit c = (c \<in> set ''0123456789'')"

text \<open>
  The pattern of a numbered item: one or more digits, a dot and a space at the start of the
  line. The result is the length of the match.
\<close>

definition match_numbered :: "string \<Rightarrow> nat option" where
  "match_numbered line =
     (let ds = takeWhile is_digit line
      in if ds \<noteq> [] \<and> prefix ''. '' (dropWhile is_digit line)
         then Some (length ds + 2) else None)"

text \<open>White space and line terminators below U+0100, which is what \<open>trim\<close> removes.\<close>

definition is_space :: "char \<Rightarrow> bool" where
  "is_space c =
     (c \<in> set [CHR 0x09, CHR 0x0A, CHR 0x0B, CHR 0x0C, CHR 0x0D, CHR 0x20, CHR 0xA0])"

definition js_trim :: "string \<Rightarrow> string" where
  "js_trim s = rev (dropWhile is_space (rev (dropWhile is_space s)))"

text \<open>The function that \<open>renderMarkdown\<close> maps over the lines.\<close>

definition render_line :: "string \<Rightarrow> block" where
  "render_line line =
     (if prefix ''### '' line then Heading 3 (js_replace ''### '' [] line)
      else if prefix ''## '' line then Heading 2 (js_replace ''## '' [] line)
      else if prefix ''# '' line then Heading 1 (js_replace ''# '' [] line)
      else if prefix ''- '' line \<or> prefix ''* '' line then ListItem False (drop 2 line)
      else (case match_numbered line of
              Some n \<Rightarrow> ListItem True (drop n line)
            | None \<Rightarrow>
                if prefix ''**'' line \<and> suffix ''**'' line
                then BoldParagraph (replace_all_stars line)
                else if js_trim line = [] then Spacer
                else Paragraph line))"

text \<open>\<open>renderMarkdown\<close>; \<open>None\<close> is its \<open>null\<close>.\<close>

definition renderMarkdown :: "string \<Rightarrow> block list option" where
  "renderMarkdown txt =
     (if txt = [] then None else Some (map render_line (js_split (CHR 0x0A) txt)))"

text \<open>
  The classification as the specification words it, to be compared with \<open>render_line\<close>: a
  line is classified by its prefix, and the text of a heading or of a list item is the
  line after that prefix.
\<close>

definition spec_block :: "string \<Rightarrow> block" where
  "spec_block line =
     (if take 4 line = ''### '' then Heading 3 (drop 4 line)
      else if take 3 line = ''## '' then Heading 2 (drop 3 line)
      else if take 2 line = ''# '' then Heading 1 (drop 2 line)
      else if take 2 line = ''- '' \<or> take 2 line = ''* '' then ListItem False (drop 2 line)
      else if takeWhile is_digit line \<noteq> [] \<and> take 2 (dropWhile is_digit line) = ''. ''
        then ListItem True (drop 2 (dropWhile is_digit line))
      else if take 2 line = ''**'' \<and> take 2 (rev line) = ''**''
        then BoldParagraph (replace_all_stars line)
      else if list_all is_space line then Spacer
      else Paragraph line)"

section \<open>The note-generation service (services/geminiService.ts)\<close>

text \<open>
  \<open>FileReader.readAsDataURL\<close> belongs to the browser. It is modelled after the File API
  and RFC 4648: the result is \<open>data:\<close>, the blob's type, \<open>;base64,\<close> and the base64 text of
  the bytes, three bytes to four characters, padded with \<open>=\<close>.
\<close>

definition b64_alphabet :: string where
  "b64_alphabet = ''ABCDEFGHIJKLMNOPQRSTUVWXYZabcdefghijklmnopqrstuvwxyz0123456789+/''"

definition b64_char :: "nat \<Rightarrow> char" where
  "b64_char i = b64_alphabet ! i"

fun b64_encode :: "byte list \<Rightarrow> string" where
  "b64_encode (a # b # c # bs) =
     [b64_char (unat a div 4),
      b64_char ((unat a mod 4) * 16 + unat b div 16),
      b64_char ((unat b mod 16) * 4 + unat c div 64),
      b64_char (unat c mod 64)] @ b64_encode bs"
| "b64_encode [a, b] =
     [b64_char (unat a div 4),
      b64_char ((unat a mod 4) * 16 + unat b div 16),
      b64_char ((unat b mod 16) * 4),
      CHR ''='']"
| "b64_encode [a] =
     [b64_char (unat a div 4), b64_char ((unat a mod 4) * 16), CHR ''='', CHR ''='']"
| "b64_encode [] = []"

definition readAsDataURL :: "Blob \<Rightarrow> string" where
  "readAsDataURL blob =
     ''data:'' @ blob_type blob @ '';base64,'' @ b64_encode (blob_bytes blob)"

text \<open>
  \<open>blobToBase64\<close>: \<open>result.split(',')[1]\<close>, which is \<open>undefined\<close> (\<open>None\<close>) when the
  result has no comma.
\<close>

definition blobToBase64 :: "Blob \<Rightarrow> string option" where
  "blobToBase64 blob =
     (let parts = js_split (CHR '','') (readAsDataURL blob)
      in if 1 < length parts then Some (parts ! 1) else None)"

text \<open>The \<open>inlineData\<close> part of the request that \<open>generateNotesFromAudio\<close> sends.\<close>

record inlineData =
  mimeType :: string
  data :: "string option"

definition request_inlineData :: "Blob \<Rightarrow> inlineData" where
  "request_inlineData audio =
     \<lparr>mimeType = (if blob_type audio = [] then ''audio/webm'' else blob_type audio),
      data = blobToBase64 audio\<rparr>"

text \<open>
  The decoder of RFC 4648, which the receiving side applies; it is not code of this
  program, and is here to state the round trip.
\<close>

fun index_of :: "'a \<Rightarrow> 'a list \<Rightarrow> nat option" where
  "index_of x [] = None"
| "index_of x (y # ys) = (if x = y then Some 0 else map_option Suc (index_of x ys))"

definition b64_value :: "char \<Rightarrow> nat option" where
  "b64_value c = index_of c b64_alphabet"

fun b64_decode :: "string \<Rightarrow> byte list option" where
  "b64_decode [] = Some []"
| "b64_decode (c1 # c2 # c3 # c4 # cs) =
     (case (b64_value c1, b64_value c2) of
        (Some v1, Some v2) \<Rightarrow>
          if cs = [] \<and> c3 = CHR ''='' \<and> c4 = CHR ''=''
          then Some [of_nat (v1 * 4 + v2 div 16)]
          else
            (case b64_value c3 of
               None \<Rightarrow> None
             | Some v3 \<Rightarrow>
                 if cs = [] \<and> c4 = CHR ''=''
                 then Some [of_nat (v1 * 4 + v2 div 16), of_nat ((v2 mod 16) * 16 + v3 div 4)]
                 else
                   (case b64_value c4 of
                      None \<Rightarrow> None
                    | Some v4 \<Rightarrow>
                        map_option
                          (\<lambda>rest. of_nat (v1 * 4 + v2 div 16) #
                                   of_nat ((v2 mod 16) * 16 + v3 div 4) #
                                   of_nat ((v3 mod 4) * 64 + v4) # rest)
                          (b64_decode cs)))
      | _ \<Rightarrow> None)"
| "b64_decode cs = None"

section \<open>Definitions for the statements\<close>

text \<open>
  An invariant of the states that the events reach from \<open>App_init\<close>: between two events no
  recorder is left with queued events, and while the state is \<open>PROCESSING\<close> there is a
  session with audio, and the audio of the call made last is that audio.
\<close>

definition App_inv :: "App \<Rightarrow> bool" where
  "App_inv s =
     ((case mediaRecorderRef s of None \<Rightarrow> True | Some r \<Rightarrow> rec_state r \<noteq> Stopping) \<and>
      (if appState s = PROCESSING
       then (case session s of
               None \<Rightarrow> False
             | Some sess \<Rightarrow>
                 (case audioBlob sess of
                    None \<Rightarrow> False
                  | Some blob \<Rightarrow> inFlight s \<noteq> [] \<and> last (inFlight s) = blob))
       else True))"

text \<open>
  A stop takes effect when the page is recording and the recorder in the ref is recording:
  then \<open>stop()\<close> queues the recorder's events.
\<close>

definition stops_a_recorder :: "App \<Rightarrow> event \<Rightarrow> bool" where
  "stops_a_recorder s e =
     (case e of
        StopCapture d uuid now \<Rightarrow>
          appState s = RECORDING \<and>
          (case mediaRecorderRef s of None \<Rightarrow> False | Some r \<Rightarrow> rec_state r = Recording)
      | _ \<Rightarrow> False)"

text \<open>Counting the object URLs created and released.\<close>

fun is_create :: "call \<Rightarrow> bool" where
  "is_create (CreateObjectURL u) = True"
| "is_create c = False"

fun is_release :: "call \<Rightarrow> bool" where
  "is_release (RevokeObjectURL u) = True"
| "is_release c = False"

definition created :: "App \<Rightarrow> nat" where
  "created s = length (filter is_create (calls s))"

definition released :: "App \<Rightarrow> nat" where
  "released s = length (filter is_release (calls s))"

text \<open>Every session's audio has the type that \<open>onstop\<close> gives it.\<close>

definition webm_session :: "App \<Rightarrow> bool" where
  "webm_session s =
     (case session s of
        None \<Rightarrow> True
      | Some sess \<Rightarrow>
          (case audioBlob sess of
             None \<Rightarrow> True
           | Some blob \<Rightarrow> blob_type blob = ''audio/webm''))"

text \<open>The number of audio contexts created so far.\<close>

definition contexts_created :: "Visualizer \<Rightarrow> nat" where
  "contexts_created v = length (filter (\<lambda>c. c = NewAudioContext) (audio_calls v))"

section \<open>The session state machine\<close>

lemmas handler_defs = startRecording_def startRecording_settled_def tick_def clearInterval_def
  recorder_stop_def stopRecording_def ondataavailable_def onstop_def recorder_events_def
  generateNotes_def generateNotes_settled_def generateNotesFromAudio_result_def reset_def

lemma run_snoc: "run (es @ [e]) s = step (run es s) e"
  by (simp add: run_def)

lemma run_Nil: "run [] s = s"
  by (simp add: run_def)

lemma run_append: "run (es @ fs) s = run fs (run es s)"
  by (simp add: run_def)

subsection \<open>The invariant\<close>

lemma App_inv_init: "App_inv App_init"
  by (simp add: App_inv_def App_init_def)

lemma App_inv_step: "App_inv s \<Longrightarrow> App_inv (step s e)"
proof (cases e)
  case StartClick
  then show "App_inv s \<Longrightarrow> App_inv (step s e)"
    by (auto simp: step_def App_inv_def handler_defs split: option.splits)
next
  case (StartSettled k out)
  then show "App_inv s \<Longrightarrow> App_inv (step s e)"
    by (cases out) (auto simp: step_def App_inv_def handler_defs split: option.splits)
next
  case Tick
  then show "App_inv s \<Longrightarrow> App_inv (step s e)"
    by (auto simp: step_def App_inv_def handler_defs split: option.splits)
next
  case (StopCapture d uuid now)
  then show "App_inv s \<Longrightarrow> App_inv (step s e)"
    by (auto simp: step_def App_inv_def handler_defs Let_def split: option.splits if_splits)
next
  case GenerateNotes
  then show "App_inv s \<Longrightarrow> App_inv (step s e)"
    by (auto simp: step_def App_inv_def handler_defs split: option.splits)
next
  case (GenerateSettled out)
  then show "App_inv s \<Longrightarrow> App_inv (step s e)"
    by (cases "inFlight s"; cases "generateNotesFromAudio_result out")
       (auto simp: step_def App_inv_def generateNotes_settled_def split: option.splits)
next
  case Reset
  then show "App_inv s \<Longrightarrow> App_inv (step s e)"
    by (auto simp: step_def App_inv_def handler_defs split: option.splits)
qed

lemma App_inv_run: "App_inv (run es App_init)"
  by (induction es rule: rev_induct) (simp_all add: run_snoc run_Nil App_inv_init App_inv_step)

subsection \<open>Stopping a capture\<close>

text \<open>
  Claim C1 says that the session built when a capture stops has the number of elapsed ticks
  as its duration. The code does not do that: \<open>onstop\<close> stores the \<open>duration\<close> of the render
  in which the capture was started. After a start, three ticks and a stop the state is
  \<open>REVIEW\<close> and the counter is 3, and the session's duration is 0.
\<close>

theorem C1_session_duration_is_stale:
  "(let s = run [StartClick, StartSettled 0 (Started 7), Tick, Tick, Tick,
                 StopCapture [1, 2] ''u'' 99] App_init
    in appState s = REVIEW \<and> duration s = 3
       \<and> map_option session_duration (session s) = Some 0)"
  by (simp add: run_def step_def App_init_def handler_defs new_Blob_def)

subsection \<open>A failed note generation\<close>

text \<open>
  Claim C2: for a session in the Review state, a note generation that fails brings the
  machine back to Review with a non-empty error message, the session as it was (the same
  audio, notes still absent), and the Generate control available again.
\<close>

theorem C2_failure_returns_to_review:
  assumes "appState s = REVIEW" and "session s = Some sess" and "audioBlob sess = Some blob"
    and "notes sess = None"
  shows "let s' = run [GenerateNotes, GenerateSettled Throws] s in
           appState s' = REVIEW \<and> error s' = Some gen_error \<and> gen_error \<noteq> []
           \<and> session s' = Some sess
           \<and> Option.bind (session s') audioBlob = Some blob
           \<and> Option.bind (session s') notes = None
           \<and> enabled s' GenerateNotes"
  using assms
  by (cases "inFlight s")
     (simp_all add: run_def step_def generateNotes_def generateNotes_settled_def
        generateNotesFromAudio_result_def gen_error_def)

theorem C2_witness:
  "(let s = run [StartClick, StartSettled 0 (Started 7), StopCapture [1, 2] ''u'' 99] App_init;
        s' = run [GenerateNotes, GenerateSettled Throws] s
    in appState s = REVIEW \<and> Option.bind (session s) notes = None
       \<and> appState s' = REVIEW \<and> error s' = Some gen_error \<and> session s' = session s
       \<and> Option.bind (session s') audioBlob = Some (new_Blob [[1, 2]] ''audio/webm''))"
proof -
  let ?s = "run [StartClick, StartSettled 0 (Started 7), StopCapture [1, 2] ''u'' 99] App_init"
  let ?blob = "new_Blob [[1, 2]] ''audio/webm''"
  let ?sess = "\<lparr>session_id = ''u'', timestamp = 99, audioBlob = Some ?blob,
                 audioUrl = Some 2, session_duration = 0, notes = None, topic = None\<rparr>"
  have h1: "appState ?s = REVIEW"
    by (simp add: run_def step_def App_init_def handler_defs)
  have h2: "session ?s = Some ?sess"
    by (simp add: run_def step_def App_init_def handler_defs)
  have h3: "audioBlob ?sess = Some ?blob" by simp
  have h4: "notes ?sess = None" by simp
  from C2_failure_returns_to_review [OF h1 h2 h3 h4] h1 h2 show ?thesis
    by (simp add: Let_def)
qed

subsection \<open>Playback handles\<close>

text \<open>
  Against claim C3 as it is worded: after a capture and its discard one object URL has
  been created and none has been released.
\<close>

theorem C3_counterexample:
  "(let s = run [StartClick, StartSettled 0 (Started 7), StopCapture [1] ''u'' 0, Reset]
              App_init
    in appState s = IDLE \<and> session s = None \<and> created s = 1 \<and> released s = 0)"
  by (simp add: run_def step_def App_init_def handler_defs new_Blob_def created_def released_def)

lemma released_handle: "released (handle e s) = released s"
proof (cases e)
  case (StartSettled k out)
  then show ?thesis by (cases out) (simp_all add: released_def handler_defs)
next
  case (StopCapture d uuid now)
  then show ?thesis
    by (auto simp: released_def handler_defs Let_def split: option.splits)
next
  case (GenerateSettled out)
  then show ?thesis
    by (cases "inFlight s"; cases "generateNotesFromAudio_result out")
       (simp_all add: released_def generateNotes_settled_def)
qed (auto simp: released_def handler_defs split: option.splits)

lemma released_run: "released (run es s) = released s"
  by (induction es rule: rev_induct) (simp_all add: run_snoc run_Nil step_def released_handle)

lemma created_step:
  assumes "App_inv s"
  shows "created (step s e) = created s + (if stops_a_recorder s e then 1 else 0)"
proof (cases e)
  case (StartSettled k out)
  then show ?thesis
    by (cases out) (simp_all add: step_def created_def stops_a_recorder_def handler_defs)
next
  case (StopCapture d uuid now)
  with assms show ?thesis
    by (auto simp: App_inv_def step_def created_def stops_a_recorder_def handler_defs Let_def
        split: option.splits)
next
  case (GenerateSettled out)
  then show ?thesis
    by (cases "inFlight s"; cases "generateNotesFromAudio_result out")
       (simp_all add: step_def created_def stops_a_recorder_def generateNotes_settled_def)
qed (auto simp: step_def created_def stops_a_recorder_def handler_defs split: option.splits)

text \<open>
  Claim C3, amended: a playback handle is never released. Over every sequence of events
  the number of release calls is 0; a handle is created exactly when a stop takes effect,
  one for every recorder that is stopped; no handler releases one, and a reset makes no
  call to the browser at all.
\<close>

theorem C3_handles_are_never_released:
  "released (run es App_init) = 0
   \<and> created (step (run es App_init) e)
       = created (run es App_init) + (if stops_a_recorder (run es App_init) e then 1 else 0)
   \<and> (stops_a_recorder (run es App_init) (StopCapture d uuid now)
        \<longrightarrow> created (step (run es App_init) (StopCapture d uuid now))
              = Suc (created (run es App_init)))
   \<and> released (handle e s) = released s
   \<and> calls (handle Reset s) = calls s"
proof -
  have a: "released (run es App_init) = 0"
    by (simp add: released_run) (simp add: released_def App_init_def)
  have b: "created (step (run es App_init) e)
       = created (run es App_init) + (if stops_a_recorder (run es App_init) e then 1 else 0)"
    for e
    by (rule created_step [OF App_inv_run])
  have c: "calls (handle Reset s) = calls s" by (simp add: reset_def)
  from a b [of e] b [of "StopCapture d uuid now"] c released_handle [of e s]
  show ?thesis by simp
qed

theorem C3_witness:
  "stops_a_recorder (run [StartClick, StartSettled 0 (Started 7)] App_init)
     (StopCapture [1] ''u'' 0)
   \<and> appState (run [StartClick, StartSettled 0 (Started 7)] App_init) = RECORDING
   \<and> created (step (run [StartClick, StartSettled 0 (Started 7)] App_init)
        (StopCapture [1] ''u'' 0))
        = Suc (created (run [StartClick, StartSettled 0 (Started 7)] App_init))
   \<and> released (run [StartClick, StartSettled 0 (Started 7)] App_init) = 0"
proof -
  let ?s = "run [StartClick, StartSettled 0 (Started 7)] App_init"
  have h: "stops_a_recorder ?s (StopCapture [1] ''u'' 0)" and r: "appState ?s = RECORDING"
    by (simp_all add: stops_a_recorder_def run_def step_def App_init_def handler_defs)
  from h r
    C3_handles_are_never_released [of "[StartClick, StartSettled 0 (Started 7)]"
      "StopCapture [1] ''u'' 0" "[1]" "''u''" 0]
  show ?thesis by blast
qed

subsection \<open>A generation result that arrives late\<close>






subsection \<open>A failed start\<close>

text \<open>
  Claim C5: when the microphone is refused or not available, a start attempt from Idle
  leaves the machine in Idle with a non-empty error message; it changes nothing but that
  message, so no stream is held and no timer runs.
\<close>

theorem C5_failed_start_stays_idle:
  assumes "appState s = IDLE" and "stream s = None" and "intervals s = []"
  shows "let s' = run [StartClick,
                       StartSettled (length (pendingStarts s)) GetUserMediaRejects] s in
           appState s' = IDLE \<and> error s' = Some mic_error \<and> mic_error \<noteq> []
           \<and> stream s' = None \<and> intervals s' = []
           \<and> s' = s\<lparr>error := Some mic_error\<rparr>"
  using assms
  by (simp add: run_def step_def startRecording_def startRecording_settled_def mic_error_def)

theorem C5_witness:
  "(let s' = run [StartClick, StartSettled (length (pendingStarts App_init))
                    GetUserMediaRejects] App_init
    in appState App_init = IDLE \<and> stream App_init = None \<and> intervals App_init = []
       \<and> appState s' = IDLE \<and> error s' = Some mic_error \<and> stream s' = None
       \<and> intervals s' = [] \<and> timerRef s' = None \<and> mediaRecorderRef s' = None
       \<and> calls s' = [] \<and> pendingStarts s' = [])"
proof -
  have h1: "appState App_init = IDLE" by (simp add: App_init_def)
  have h2: "stream App_init = None" by (simp add: App_init_def)
  have h3: "intervals App_init = []" by (simp add: App_init_def)
  from C5_failed_start_stays_idle [OF h1 h2 h3] h1 h2 h3 show ?thesis
    by (simp add: Let_def App_init_def)
qed

subsection \<open>Events outside their source state\<close>

text \<open>
  Claim C6 says that an event which arrives in a state other than its source state changes
  nothing. The code does not keep to that. The record button stays on the page while a
  \<open>getUserMedia\<close> call is pending, so it can be clicked twice; after the first capture has
  been stopped, the second acquisition settles in \<open>REVIEW\<close> and sets the state \<open>RECORDING\<close>,
  with a new stream, recorder and timer, while the session of the first capture is still
  there. And when both acquisitions settle before the stop, the interval of the first is
  never cleared: it ticks in \<open>REVIEW\<close> and changes the counter.
\<close>

theorem C6_late_start_changes_the_state:
  "(let s = run [StartClick, StartClick, StartSettled 0 (Started 7),
                 StopCapture [1] ''a'' 0] App_init;
        s' = step s (StartSettled 0 (Started 8));
        t = run [StartClick, StartClick, StartSettled 0 (Started 7),
                 StartSettled 0 (Started 8), StopCapture [1] ''a'' 0] App_init
    in appState s = REVIEW \<and> map_option session_id (session s) = Some ''a''
       \<and> stream s = None \<and> intervals s = []
       \<and> appState s' = RECORDING \<and> map_option session_id (session s') = Some ''a''
       \<and> stream s' = Some 8 \<and> intervals s' = [3]
       \<and> appState t = REVIEW \<and> intervals t = [1] \<and> duration t = 0
       \<and> appState (step t Tick) = REVIEW \<and> duration (step t Tick) = 1)"
  by (simp add: run_def step_def App_init_def handler_defs new_Blob_def)

subsection \<open>The state ERROR is never entered\<close>

lemma handle_no_ERROR: "appState s \<noteq> ERROR \<Longrightarrow> appState (handle e s) \<noteq> ERROR"
proof (cases e)
  case (StartSettled k out)
  then show "appState s \<noteq> ERROR \<Longrightarrow> appState (handle e s) \<noteq> ERROR"
    by (cases out) (simp_all add: handler_defs)
next
  case (StopCapture d uuid now)
  then show "appState s \<noteq> ERROR \<Longrightarrow> appState (handle e s) \<noteq> ERROR"
    by (auto simp: handler_defs Let_def split: option.splits if_splits)
next
  case (GenerateSettled out)
  then show "appState s \<noteq> ERROR \<Longrightarrow> appState (handle e s) \<noteq> ERROR"
    by (cases "inFlight s"; cases "generateNotesFromAudio_result out")
       (simp_all add: generateNotes_settled_def)
qed (auto simp: handler_defs split: option.splits)

lemma step_no_ERROR: "appState s \<noteq> ERROR \<Longrightarrow> appState (step s e) \<noteq> ERROR"
  by (simp add: step_def handle_no_ERROR)

lemma run_no_ERROR: "appState s \<noteq> ERROR \<Longrightarrow> appState (run es s) \<noteq> ERROR"
  by (induction es rule: rev_induct) (simp_all add: run_snoc run_Nil step_no_ERROR)

lemma handle_all_no_ERROR:
  "appState s \<noteq> ERROR \<Longrightarrow> appState (foldl (\<lambda>s e. handle e s) s es) \<noteq> ERROR"
  by (induction es rule: rev_induct) (simp_all add: handle_no_ERROR)

text \<open>
  Claim C10: from Idle, no sequence of events brings the machine into \<open>ERROR\<close>: every state
  reached is one of the other five. This holds of the events the page can deliver and also
  of the handlers called in any order, since none of them assigns \<open>ERROR\<close>; a failed note
  generation sets \<open>REVIEW\<close>.
\<close>

theorem C10_ERROR_is_never_entered:
  "appState (run es App_init) \<in> {IDLE, RECORDING, REVIEW, PROCESSING, COMPLETED}
   \<and> appState (foldl (\<lambda>s e. handle e s) App_init es) \<noteq> ERROR
   \<and> appState (generateNotes_settled Throws s) = REVIEW"
proof -
  have i: "appState App_init \<noteq> ERROR" by (simp add: App_init_def)
  have "appState (run es App_init) \<noteq> ERROR" using i by (rule run_no_ERROR)
  then have a: "appState (run es App_init) \<in> {IDLE, RECORDING, REVIEW, PROCESSING, COMPLETED}"
    by (cases "appState (run es App_init)") simp_all
  have b: "appState (foldl (\<lambda>s e. handle e s) App_init es) \<noteq> ERROR"
    using i by (rule handle_all_no_ERROR)
  have c: "appState (generateNotes_settled Throws s) = REVIEW"
    by (simp add: generateNotes_settled_def generateNotesFromAudio_result_def)
  from a b c show ?thesis by simp
qed

section \<open>The audio payload\<close>

subsection \<open>Three bytes as four sextets\<close>

lemma byte_bound: "unat (a :: byte) < 256"
  using unsigned_less [of a, where ?'a = nat] by simp

lemma sextets:
  fixes x y z :: nat
  assumes "x < 256" "y < 256" "z < 256"
  shows "x div 4 < 64" "(x mod 4) * 16 + y div 16 < 64" "(y mod 16) * 4 + z div 64 < 64"
    "z mod 64 < 64" "(x mod 4) * 16 < 64" "(y mod 16) * 4 < 64"
proof -
  show "x div 4 < 64" using assms by simp
  have "x mod 4 < 4" "y div 16 < 16" "y mod 16 < 16" "z div 64 < 4" using assms by simp_all
  then show "(x mod 4) * 16 + y div 16 < 64" "(y mod 16) * 4 + z div 64 < 64"
    "(x mod 4) * 16 < 64" "(y mod 16) * 4 < 64" by linarith+
  show "z mod 64 < 64" by simp
qed

lemma regroup1:
  fixes x y :: nat
  assumes "y < 256"
  shows "x div 4 * 4 + ((x mod 4) * 16 + y div 16) div 16 = x"
proof -
  have "y div 16 < 16" using assms by simp
  then have "((x mod 4) * 16 + y div 16) div 16 = x mod 4" by simp
  then show ?thesis by simp
qed

lemma regroup2:
  fixes x y z :: nat
  assumes "y < 256" "z < 256"
  shows "(((x mod 4) * 16 + y div 16) mod 16) * 16 + ((y mod 16) * 4 + z div 64) div 4 = y"
proof -
  have a: "y div 16 < 16" "z div 64 < 4" using assms by simp_all
  then have "((x mod 4) * 16 + y div 16) mod 16 = y div 16" by simp
  moreover have "((y mod 16) * 4 + z div 64) div 4 = y mod 16" using a by simp
  ultimately show ?thesis by simp
qed

lemma regroup3:
  fixes y z :: nat
  assumes "z < 256"
  shows "(((y mod 16) * 4 + z div 64) mod 4) * 64 + z mod 64 = z"
proof -
  have a: "z div 64 < 4" using assms by simp
  then have "((y mod 16) * 4 + z div 64) mod 4 = z div 64" by simp
  then show ?thesis by simp
qed

subsection \<open>The alphabet\<close>

lemma index_of_nth: "distinct xs \<Longrightarrow> i < length xs \<Longrightarrow> index_of (xs ! i) xs = Some i"
proof (induction xs arbitrary: i)
  case Nil
  then show ?case by simp
next
  case (Cons x xs)
  show ?case
  proof (cases i)
    case 0
    then show ?thesis by simp
  next
    case (Suc j)
    with Cons.prems have "xs ! j \<in> set xs" and "x \<notin> set xs" by simp_all
    then have "xs ! j \<noteq> x" by blast
    with Suc Cons show ?thesis by simp
  qed
qed

lemma b64_alphabet_length: "length b64_alphabet = 64"
  by (simp add: b64_alphabet_def)

lemma b64_alphabet_distinct: "distinct b64_alphabet"
  unfolding b64_alphabet_def by code_simp

lemma b64_alphabet_no_pad: "CHR ''='' \<notin> set b64_alphabet"
  unfolding b64_alphabet_def by code_simp

lemma b64_alphabet_no_comma: "CHR '','' \<notin> set b64_alphabet"
  unfolding b64_alphabet_def by code_simp

lemma b64_value_char: "i < 64 \<Longrightarrow> b64_value (b64_char i) = Some i"
  by (simp add: b64_value_def b64_char_def index_of_nth b64_alphabet_distinct b64_alphabet_length)

lemma b64_char_in: "i < 64 \<Longrightarrow> b64_char i \<in> set b64_alphabet"
  by (simp add: b64_char_def b64_alphabet_length)

lemma b64_char_not_pad: "i < 64 \<Longrightarrow> b64_char i \<noteq> CHR ''=''"
  using b64_alphabet_no_pad b64_char_in by metis

lemma b64_char_not_comma: "i < 64 \<Longrightarrow> b64_char i \<noteq> CHR '',''"
  using b64_alphabet_no_comma b64_char_in by metis

subsection \<open>Decoding what was encoded\<close>

lemma b64_decode_quad:
  assumes "v1 < 64" "v2 < 64" "v3 < 64" "v4 < 64"
  shows "b64_decode (b64_char v1 # b64_char v2 # b64_char v3 # b64_char v4 # cs) =
           map_option (\<lambda>rest. of_nat (v1 * 4 + v2 div 16) #
                                of_nat ((v2 mod 16) * 16 + v3 div 4) #
                                of_nat ((v3 mod 4) * 64 + v4) # rest) (b64_decode cs)"
  using assms by (simp add: b64_value_char b64_char_not_pad)

lemma b64_decode_pad1:
  assumes "v1 < 64" "v2 < 64" "v3 < 64"
  shows "b64_decode [b64_char v1, b64_char v2, b64_char v3, CHR ''=''] =
           Some [of_nat (v1 * 4 + v2 div 16), of_nat ((v2 mod 16) * 16 + v3 div 4)]"
  using assms by (simp add: b64_value_char b64_char_not_pad)

lemma b64_decode_pad2:
  assumes "v1 < 64" "v2 < 64"
  shows "b64_decode [b64_char v1, b64_char v2, CHR ''='', CHR ''=''] =
           Some [of_nat (v1 * 4 + v2 div 16)]"
  using assms by (simp add: b64_value_char)

lemma b64_decode_encode: "b64_decode (b64_encode bs) = Some bs"
proof (induction bs rule: b64_encode.induct)
  case (1 a b c bs)
  define v1 where "v1 = unat a div 4"
  define v2 where "v2 = (unat a mod 4) * 16 + unat b div 16"
  define v3 where "v3 = (unat b mod 16) * 4 + unat c div 64"
  define v4 where "v4 = unat c mod 64"
  have s: "v1 < 64" "v2 < 64" "v3 < 64" "v4 < 64"
    unfolding v1_def v2_def v3_def v4_def
    by (rule sextets [OF byte_bound byte_bound byte_bound])+
  have r: "v1 * 4 + v2 div 16 = unat a" "(v2 mod 16) * 16 + v3 div 4 = unat b"
    "(v3 mod 4) * 64 + v4 = unat c"
    unfolding v1_def v2_def v3_def v4_def
    by (rule regroup1 [OF byte_bound], rule regroup2 [OF byte_bound byte_bound],
        rule regroup3 [OF byte_bound])
  have "b64_encode (a # b # c # bs)
          = b64_char v1 # b64_char v2 # b64_char v3 # b64_char v4 # b64_encode bs"
    by (simp add: v1_def v2_def v3_def v4_def)
  then show ?case
    by (simp only: b64_decode_quad [OF s] r "1.IH") simp
next
  case (2 a b)
  define v1 where "v1 = unat a div 4"
  define v2 where "v2 = (unat a mod 4) * 16 + unat b div 16"
  define v3 where "v3 = (unat b mod 16) * 4"
  have s: "v1 < 64" "v2 < 64" "v3 < 64"
    unfolding v1_def v2_def v3_def
    using sextets [OF byte_bound [of a] byte_bound [of b] byte_bound [of b]] by simp_all
  have "v3 div 4 = unat b mod 16" by (simp add: v3_def)
  moreover have "unat b div 16 < 16" using byte_bound [of b] by simp
  then have "v2 mod 16 = unat b div 16" "v2 div 16 = unat a mod 4" by (simp_all add: v2_def)
  ultimately have r: "v1 * 4 + v2 div 16 = unat a" "(v2 mod 16) * 16 + v3 div 4 = unat b"
    by (simp_all add: v1_def)
  have "b64_encode [a, b] = [b64_char v1, b64_char v2, b64_char v3, CHR ''='']"
    by (simp add: v1_def v2_def v3_def)
  then show ?case
    by (simp only: b64_decode_pad1 [OF s] r) simp
next
  case (3 a)
  define v1 where "v1 = unat a div 4"
  define v2 where "v2 = (unat a mod 4) * 16"
  have s: "v1 < 64" "v2 < 64"
    unfolding v1_def v2_def
    using sextets [OF byte_bound [of a] byte_bound [of a] byte_bound [of a]] by simp_all
  have r: "v1 * 4 + v2 div 16 = unat a" by (simp add: v1_def v2_def)
  have "b64_encode [a] = [b64_char v1, b64_char v2, CHR ''='', CHR ''='']"
    by (simp add: v1_def v2_def)
  then show ?case
    by (simp only: b64_decode_pad2 [OF s] r) simp
next
  case 4
  show ?case by simp
qed

subsection \<open>Splitting the data URL\<close>

lemma comma_not_b64_char: "i < 64 \<Longrightarrow> CHR '','' \<noteq> b64_char i"
  using b64_char_not_comma by metis

lemma b64_encode_no_comma: "CHR '','' \<notin> set (b64_encode bs)"
proof (induction bs rule: b64_encode.induct)
  case (1 a b c bs)
  note s = sextets [OF byte_bound [of a] byte_bound [of b] byte_bound [of c]]
  from 1 show ?case by (simp add: comma_not_b64_char s)
next
  case (2 a b)
  note s = sextets [OF byte_bound [of a] byte_bound [of b] byte_bound [of 0]]
  show ?case by (simp add: comma_not_b64_char s)
next
  case (3 a)
  note s = sextets [OF byte_bound [of a] byte_bound [of 0] byte_bound [of 0]]
  show ?case by (simp add: comma_not_b64_char s)
next
  case 4
  show ?case by simp
qed

lemma js_split_no_sep: "sep \<notin> set xs \<Longrightarrow> js_split sep xs = [xs]"
  by (induction xs) auto

lemma js_split_one_sep:
  "sep \<notin> set xs \<Longrightarrow> sep \<notin> set ys \<Longrightarrow> js_split sep (xs @ sep # ys) = [xs, ys]"
  by (induction xs) (auto simp: js_split_no_sep)

lemma blobToBase64_encode:
  assumes "CHR '','' \<notin> set (blob_type blob)"
  shows "blobToBase64 blob = Some (b64_encode (blob_bytes blob))"
proof -
  have "CHR '','' \<notin> set (''data:'' @ blob_type blob @ '';base64'')"
    using assms by simp
  then have "js_split (CHR '','') ((''data:'' @ blob_type blob @ '';base64'') @
               CHR '','' # b64_encode (blob_bytes blob))
             = [''data:'' @ blob_type blob @ '';base64'', b64_encode (blob_bytes blob)]"
    using b64_encode_no_comma by (rule js_split_one_sep)
  then show ?thesis by (simp add: blobToBase64_def readAsDataURL_def)
qed

subsection \<open>The payload of a request\<close>

lemma webm_session_step: "webm_session s \<Longrightarrow> webm_session (step s e)"
proof (cases e)
  case (StartSettled k out)
  then show "webm_session s \<Longrightarrow> webm_session (step s e)"
    by (cases out) (auto simp: step_def webm_session_def handler_defs)
next
  case (StopCapture d uuid now)
  then show "webm_session s \<Longrightarrow> webm_session (step s e)"
    by (auto simp: step_def webm_session_def handler_defs new_Blob_def Let_def
        split: option.splits if_splits)
next
  case (GenerateSettled out)
  then show "webm_session s \<Longrightarrow> webm_session (step s e)"
    by (cases "inFlight s"; cases "generateNotesFromAudio_result out")
       (auto simp: step_def webm_session_def generateNotes_settled_def split: option.splits)
qed (auto simp: step_def webm_session_def handler_defs split: option.splits)

lemma webm_session_run: "webm_session (run es App_init)"
proof (induction es rule: rev_induct)
  case Nil
  show ?case by (simp add: run_Nil webm_session_def App_init_def)
next
  case (snoc e es)
  then show ?case by (simp add: run_snoc webm_session_step)
qed

lemma session_blob_type:
  assumes "session (run es App_init) = Some sess" and "audioBlob sess = Some blob"
  shows "blob_type blob = ''audio/webm''"
  using webm_session_run [of es] assms by (simp add: webm_session_def)

lemma retry_sends_same_audio:
  assumes "appState s = REVIEW" and "session s = Some sess" and "audioBlob sess = Some blob"
  shows "inFlight (run [GenerateNotes] s) = inFlight s @ [blob]"
    and "inFlight (run [GenerateNotes, GenerateSettled Throws, GenerateNotes] s)
           = tl (inFlight s @ [blob]) @ [blob]"
  using assms
  by (cases "inFlight s";
      simp add: run_def step_def generateNotes_def generateNotes_settled_def
        generateNotesFromAudio_result_def)+

text \<open>
  Claim C7: for the audio of every session, the data sent with the request is the base64
  text of its bytes, which is the data URL without its prefix; decoding that text gives the
  bytes back; and the retry after a failed generation sends the same audio: each request
  adds this audio to the calls in flight, so with nothing else in flight the call in
  flight, first as after the failure, is the one for this audio.
\<close>

theorem C7_payload_is_base64_of_audio:
  assumes "session (run es App_init) = Some sess" and "audioBlob sess = Some blob"
  shows "readAsDataURL blob = ''data:audio/webm;base64,'' @ b64_encode (blob_bytes blob)
       \<and> data (request_inlineData blob) = Some (b64_encode (blob_bytes blob))
       \<and> Option.bind (data (request_inlineData blob)) b64_decode = Some (blob_bytes blob)
       \<and> (appState (run es App_init) = REVIEW \<longrightarrow>
            inFlight (run (es @ [GenerateNotes]) App_init) = inFlight (run es App_init) @ [blob]
            \<and> inFlight (run (es @ [GenerateNotes, GenerateSettled Throws, GenerateNotes])
                 App_init) = tl (inFlight (run es App_init) @ [blob]) @ [blob]
            \<and> (inFlight (run es App_init) = [] \<longrightarrow>
                 inFlight (run (es @ [GenerateNotes]) App_init) = [blob]
                 \<and> inFlight (run (es @ [GenerateNotes, GenerateSettled Throws, GenerateNotes])
                      App_init) = [blob]))"
proof -
  have ty: "blob_type blob = ''audio/webm''"
    using assms by (rule session_blob_type)
  then have "CHR '','' \<notin> set (blob_type blob)" by simp
  then have p: "blobToBase64 blob = Some (b64_encode (blob_bytes blob))"
    by (rule blobToBase64_encode)
  have a: "readAsDataURL blob = ''data:audio/webm;base64,'' @ b64_encode (blob_bytes blob)"
    by (simp add: readAsDataURL_def ty)
  have b: "data (request_inlineData blob) = Some (b64_encode (blob_bytes blob))"
    by (simp add: request_inlineData_def p)
  have c: "Option.bind (data (request_inlineData blob)) b64_decode = Some (blob_bytes blob)"
    by (simp add: b b64_decode_encode)
  have d: "appState (run es App_init) = REVIEW \<longrightarrow>
            inFlight (run (es @ [GenerateNotes]) App_init) = inFlight (run es App_init) @ [blob]
            \<and> inFlight (run (es @ [GenerateNotes, GenerateSettled Throws, GenerateNotes])
                 App_init) = tl (inFlight (run es App_init) @ [blob]) @ [blob]
            \<and> (inFlight (run es App_init) = [] \<longrightarrow>
                 inFlight (run (es @ [GenerateNotes]) App_init) = [blob]
                 \<and> inFlight (run (es @ [GenerateNotes, GenerateSettled Throws, GenerateNotes])
                      App_init) = [blob])"
    using retry_sends_same_audio [OF _ assms] by (simp add: run_append)
  from a b c d show ?thesis by blast
qed

theorem C7_witness:
  "(let es = [StartClick, StartSettled 0 (Started 7), StopCapture [77, 97] ''u'' 99];
        blob = new_Blob [[77, 97]] ''audio/webm''
    in Option.bind (session (run es App_init)) audioBlob = Some blob
       \<and> appState (run es App_init) = REVIEW
       \<and> inFlight (run es App_init) = []
       \<and> data (request_inlineData blob) = Some ''TWE=''
       \<and> Option.bind (data (request_inlineData blob)) b64_decode = Some [77, 97]
       \<and> inFlight (run (es @ [GenerateNotes, GenerateSettled Throws, GenerateNotes])
            App_init) = [blob])"
proof -
  let ?es = "[StartClick, StartSettled 0 (Started 7), StopCapture [77, 97] ''u'' 99]"
  let ?blob = "new_Blob [[77, 97]] ''audio/webm''"
  let ?sess = "\<lparr>session_id = ''u'', timestamp = 99, audioBlob = Some ?blob,
                 audioUrl = Some 2, session_duration = 0, notes = None, topic = None\<rparr>"
  have h1: "session (run ?es App_init) = Some ?sess"
    by (simp add: run_def step_def App_init_def handler_defs)
  have h2: "audioBlob ?sess = Some ?blob" by simp
  have h3: "appState (run ?es App_init) = REVIEW"
    by (simp add: run_def step_def App_init_def handler_defs)
  have h4: "inFlight (run ?es App_init) = []"
    by (simp add: run_def step_def App_init_def handler_defs)
  have e: "b64_encode [77, 97] = ''TWE=''"
    by (simp add: b64_char_def b64_alphabet_def)
  have b: "blob_bytes ?blob = [77, 97]"
    by (simp add: new_Blob_def)
  note t = C7_payload_is_base64_of_audio [OF h1 h2, unfolded b e]
  from t h3 h4 have "data (request_inlineData ?blob) = Some ''TWE=''"
    and "Option.bind (data (request_inlineData ?blob)) b64_decode = Some [77, 97]"
    and "inFlight (run (?es @ [GenerateNotes, GenerateSettled Throws, GenerateNotes])
           App_init) = [?blob]"
    by blast+
  with h1 h3 h4 show ?thesis
    by (simp only: Let_def option.simps bind.bind_lunit NoteSession.simps)
qed

section \<open>The formatter\<close>

lemma prefix_take_eq: "prefix p l \<longleftrightarrow> take (length p) l = p"
proof
  assume "prefix p l"
  then show "take (length p) l = p" by (auto simp: prefix_def)
next
  assume "take (length p) l = p"
  then show "prefix p l" by (metis take_is_prefix)
qed

lemma suffix_take_rev_eq: "suffix p l \<longleftrightarrow> take (length p) (rev l) = rev p"
  by (simp add: suffix_to_prefix prefix_take_eq)

lemma js_replace_prefix: "prefix pat line \<Longrightarrow> js_replace pat [] line = drop (length pat) line"
  by (cases line) simp_all

lemma js_trim_empty: "js_trim s = [] \<longleftrightarrow> list_all is_space s"
proof -
  have "js_trim s = [] \<longleftrightarrow> (\<forall>x \<in> set (dropWhile is_space s). is_space x)"
    by (simp add: js_trim_def dropWhile_eq_Nil_conv)
  also have "\<dots> \<longleftrightarrow> dropWhile is_space s = []"
  proof
    assume a: "\<forall>x \<in> set (dropWhile is_space s). is_space x"
    show "dropWhile is_space s = []"
    proof (rule ccontr)
      assume n: "dropWhile is_space s \<noteq> []"
      then have "\<not> is_space (hd (dropWhile is_space s))" by (rule hd_dropWhile)
      moreover have "hd (dropWhile is_space s) \<in> set (dropWhile is_space s)"
        using n by simp
      ultimately show False using a by blast
    qed
  next
    assume "dropWhile is_space s = []"
    then have "set (dropWhile is_space s) = {}" by (simp only: set_empty)
    then show "\<forall>x \<in> set (dropWhile is_space s). is_space x" by (simp only: ball_empty)
  qed
  also have "\<dots> \<longleftrightarrow> list_all is_space s"
    by (simp add: dropWhile_eq_Nil_conv list_all_iff)
  finally show ?thesis .
qed

lemma length_js_split: "length (js_split sep s) = Suc (count_list s sep)"
  by (induction s) (auto split: list.splits)

lemma render_line_spec: "render_line line = spec_block line"
proof -
  have p4: "prefix ''### '' line \<longleftrightarrow> take 4 line = ''### ''"
    and p3: "prefix ''## '' line \<longleftrightarrow> take 3 line = ''## ''"
    and p2: "prefix ''# '' line \<longleftrightarrow> take 2 line = ''# ''"
    and pd: "prefix ''- '' line \<longleftrightarrow> take 2 line = ''- ''"
    and ps: "prefix ''* '' line \<longleftrightarrow> take 2 line = ''* ''"
    and pb: "prefix ''**'' line \<longleftrightarrow> take 2 line = ''**''"
    and sb: "suffix ''**'' line \<longleftrightarrow> take 2 (rev line) = ''**''"
    and pn: "prefix ''. '' (dropWhile is_digit line)
               \<longleftrightarrow> take 2 (dropWhile is_digit line) = ''. ''"
    by (simp_all add: prefix_take_eq suffix_take_rev_eq eval_nat_numeral)
  have r4: "prefix ''### '' line \<Longrightarrow> js_replace ''### '' [] line = drop 4 line"
    and r3: "prefix ''## '' line \<Longrightarrow> js_replace ''## '' [] line = drop 3 line"
    and r2: "prefix ''# '' line \<Longrightarrow> js_replace ''# '' [] line = drop 2 line"
    using js_replace_prefix [of "''### ''" line] js_replace_prefix [of "''## ''" line]
      js_replace_prefix [of "''# ''" line] by (simp_all add: eval_nat_numeral)
  have n: "drop (length (takeWhile is_digit line) + 2) line = drop 2 (dropWhile is_digit line)"
    by (metis add.commute drop_drop dropWhile_eq_drop)
  show ?thesis
    unfolding render_line_def spec_block_def match_numbered_def Let_def
    using r4 r3 r2 n
    by (simp add: p4 [symmetric] p3 [symmetric] p2 [symmetric] pd [symmetric] ps [symmetric]
        pb [symmetric] sb [symmetric] pn [symmetric] js_trim_empty)
qed

text \<open>
  Against claim C8 as it is worded: for the empty text the formatter returns \<open>null\<close>, no
  block at all, while the text splits into one (empty) line.
\<close>

theorem C8_counterexample:
  "renderMarkdown [] = None \<and> js_split (CHR 0x0A) [] = [[]]"
  by (simp add: renderMarkdown_def)

text \<open>
  Claim C8, amended: for every text that is not empty the formatter returns exactly one
  block per line (one more than the text has line feeds), and the block of a line depends
  on that line alone: a heading of level 3, 2 or 1 for the prefixes \<open>###\<close>, \<open>##\<close>, \<open>#\<close>
  followed by a space, a list item for \<open>-\<close> or \<open>*\<close> followed by a space or for digits
  followed by a dot and a space, a bold paragraph for a line that starts and ends with two
  stars, a spacer for a blank line, and a plain paragraph otherwise.
\<close>

theorem C8_one_block_per_line:
  assumes "txt \<noteq> []"
  shows "\<exists>blocks. renderMarkdown txt = Some blocks
           \<and> length blocks = length (js_split (CHR 0x0A) txt)
           \<and> length blocks = Suc (count_list txt (CHR 0x0A))
           \<and> (\<forall>i < length blocks. blocks ! i = spec_block (js_split (CHR 0x0A) txt ! i))"
  using assms by (simp add: renderMarkdown_def length_js_split render_line_spec)

theorem C8_witness:
  "''# Topic'' @ [CHR 0x0A] @ ''- point one'' \<noteq> []
   \<and> renderMarkdown (''# Topic'' @ [CHR 0x0A] @ ''- point one'')
       = Some [Heading 1 ''Topic'', ListItem False ''point one'']"
proof -
  let ?txt = "''# Topic'' @ [CHR 0x0A] @ ''- point one''"
  have h: "?txt \<noteq> []" by simp
  from C8_one_block_per_line [OF h] obtain blocks where
    b: "renderMarkdown ?txt = Some blocks"
    and l: "length blocks = length (js_split (CHR 0x0A) ?txt)"
    and n: "\<forall>i < length blocks. blocks ! i = spec_block (js_split (CHR 0x0A) ?txt ! i)"
    by blast
  have sp: "js_split (CHR 0x0A) ?txt = [''# Topic'', ''- point one'']" by simp
  have l2: "length blocks = 2" using l by (simp only: sp) simp
  have "blocks ! 0 = spec_block (js_split (CHR 0x0A) ?txt ! 0)"
    and "blocks ! 1 = spec_block (js_split (CHR 0x0A) ?txt ! 1)"
    using n l2 by simp_all
  then have "blocks ! 0 = Heading 1 ''Topic''" and "blocks ! 1 = ListItem False ''point one''"
    by (simp_all only: sp) (simp_all add: spec_block_def)
  with l2 have "blocks = [Heading 1 ''Topic'', ListItem False ''point one'']"
    by (simp add: list_eq_iff_nth_eq less_Suc_eq numeral_2_eq_2)
  with b h show ?thesis by simp
qed

section \<open>The visualizer on the page\<close>

lemmas vis_defs = draw_def effect_setup_def cancelAnimationFrame_def effect_cleanup_def
  mount_def render_Visualizer_def

text \<open>
  Claim C9 says that the audio context is kept open to be used again by the captures that
  follow, as the comment in the cleanup function does. The code does not do that. The
  context is in a ref of the instance, and \<open>App\<close> mounts a new instance for every capture:
  after two captures two audio contexts have been created and none has been closed. What
  the claim says of the nodes holds on the way: after the first capture has stopped nothing
  is connected and no frame is requested.
\<close>

theorem C9_each_capture_creates_a_context:
  "(let p1 = page_run [AppEvent StartClick False,
                       AppEvent (StartSettled 0 (Started 7)) True,
                       AnimationFrame,
                       AppEvent (StopCapture [1] ''a'' 0) False] (Page_init (Some True));
        p2 = page_run [AppEvent Reset False,
                       AppEvent StartClick False,
                       AppEvent (StartSettled 0 (Started 8)) False] p1
    in appState (page_app p1) = REVIEW \<and> \<not> mounted (page_vis p1)
       \<and> contexts_created (page_vis p1) = 1
       \<and> connections (page_vis p1) = [] \<and> pendingFrame (page_vis p1) = None
       \<and> appState (page_app p2) = RECORDING \<and> mounted (page_vis p2)
       \<and> contexts_created (page_vis p2) = 2
       \<and> audioContextRef (page_vis p1) = Some 1 \<and> audioContextRef (page_vis p2) = Some 6
       \<and> ContextClose \<notin> set (audio_calls (page_vis p2)))"
  by code_simp

end
